theory Spec2Isabelle
  imports Complex_Main
begin

section \<open>NeuralRadianceFieldPackedRenderer\<close>

text \<open>
  A shallow embedding of \<^verbatim>\<open>wisp/renderer/core/renderers/radiance_pipeline_renderer.py\<close>.
  The renderer object is a record that every lifecycle method takes and returns; the
  collaborators the class only calls (tracer, rays, render buffer) are either parameters
  or small models, each marked where it is introduced.
\<close>

subsection \<open>Python values, the store and errors\<close>

text \<open>
  A channel set is a mutable object. The payload, \<^verbatim>\<open>self.channels\<close> and the entry of
  \<^verbatim>\<open>self._last_state\<close> do not hold a copy of it but a reference to it, so the store maps
  every reference to the contents its set has now; a change of a set in place is a change
  of the store.
\<close>

type_synonym addr = nat

type_synonym heap = "addr \<Rightarrow> string set"

text \<open>
  The values that \<^verbatim>\<open>self.channels\<close> and the entries of \<^verbatim>\<open>self._last_state\<close> hold:
  \<^verbatim>\<open>None\<close>, an integer step count, or a reference to a set of channel names.
\<close>

datatype pyval = PyNone | PyInt int | PySet addr

text \<open>Python's \<^verbatim>\<open>==\<close> on these values; two sets are equal when their contents are.\<close>

fun py_eq :: "heap \<Rightarrow> pyval \<Rightarrow> pyval \<Rightarrow> bool" where
  "py_eq h PyNone PyNone = True"
| "py_eq h (PyInt i) (PyInt j) = (i = j)"
| "py_eq h (PySet r) (PySet s) = (h r = h s)"
| "py_eq h _ _ = False"

datatype error = AttributeError | TypeError | RuntimeError

subsection \<open>Frame payload\<close>

text \<open>
  The fields of \<^verbatim>\<open>FramePayload\<close> that \<^verbatim>\<open>pre_render\<close> reads. Colour components and the far
  plane are floats in the source; they are only copied and compared for equality, so they
  are numbers here (\<^verbatim>\<open>-0.0\<close> and \<^verbatim>\<open>0.0\<close> compare equal in Python and are both \<open>0\<close>).
  \<open>p_channels\<close> is the reference to the payload's channel set.
\<close>

record camera =
  cam_width :: int
  cam_height :: int
  cam_far :: real

record frame_payload =
  p_render_res_x :: int
  p_render_res_y :: int
  p_camera :: camera
  p_clear_color :: "real \<times> real \<times> real"
  p_interactive_mode :: bool
  p_channels :: addr

subsection \<open>Renderer state\<close>

text \<open>The tracer object; \<^verbatim>\<open>num_steps\<close> is the one attribute the renderer writes and reads.\<close>

record tracer =
  tracer_num_steps :: int

record 'nef renderer =
  nef :: 'nef
  batch_size :: int
  num_steps :: int
  num_steps_movement :: int
  raymarch_type :: string
  bg_color :: string
  tracer :: tracer
  render_res_x :: "int option"
  render_res_y :: "int option"
  output_width :: "int option"
  output_height :: "int option"
  far_clipping :: "real option"
  channels :: pyval
  last_state :: "string \<rightharpoonup> pyval"

subsection \<open>Construction\<close>

text \<open>
  The keyword arguments of \<^verbatim>\<open>__init__\<close>; \<open>None\<close> is an argument left at its default.
  \<open>ia_tracer_type\<close> holds the instance that \<^verbatim>\<open>tracer_type()\<close> creates. The instance that
  \<^verbatim>\<open>PackedRFTracer()\<close> creates is the parameter \<open>default_tracer\<close>, and the neural field
  stored by the base class constructor is the parameter \<open>n\<close>. The argument \<^verbatim>\<open>min_dis\<close> is
  accepted and never read; further positional and keyword arguments go to the base class
  constructor, which is not part of the source file.
\<close>

record init_args =
  ia_tracer_type :: "tracer option"
  ia_batch_size :: "int option"
  ia_num_steps :: "int option"
  ia_raymarch_type :: "string option"

definition renderer_init :: "'nef \<Rightarrow> tracer \<Rightarrow> init_args \<Rightarrow> 'nef renderer" where
  "renderer_init n default_tracer a =
     (let steps = (case ia_num_steps a of None \<Rightarrow> 2 | Some k \<Rightarrow> k) in
      \<lparr> nef = n,
        batch_size = (case ia_batch_size a of None \<Rightarrow> 2 ^ 14 | Some b \<Rightarrow> b),
        num_steps = steps,
        num_steps_movement = max (steps div 4) 1,
        raymarch_type = (case ia_raymarch_type a of None \<Rightarrow> ''voxel'' | Some r \<Rightarrow> r),
        bg_color = ''black'',
        tracer = (case ia_tracer_type a of Some t \<Rightarrow> t | None \<Rightarrow> default_tracer),
        render_res_x = None,
        render_res_y = None,
        output_width = None,
        output_height = None,
        far_clipping = None,
        channels = PyNone,
        last_state = Map.empty \<rparr>)"

subsection \<open>Lifecycle methods that change the state\<close>

text \<open>
  The base class \<^verbatim>\<open>RayTracedRenderer\<close> is not part of the source file; its \<^verbatim>\<open>pre_render\<close>
  is taken to leave the attributes assigned below alone. The layers painter and the data
  layers of the object play no part in the four lifecycle methods and are left out.
  \<^verbatim>\<open>self.channels = payload.channels\<close> copies the reference, not the set.
\<close>

definition pre_render :: "'nef renderer \<Rightarrow> frame_payload \<Rightarrow> 'nef renderer" where
  "pre_render st p =
     st \<lparr> render_res_x := Some (p_render_res_x p),
          render_res_y := Some (p_render_res_y p),
          output_width := Some (cam_width (p_camera p)),
          output_height := Some (cam_height (p_camera p)),
          far_clipping := Some (cam_far (p_camera p)),
          bg_color := (if p_clear_color p = (0, 0, 0) then ''black'' else ''white''),
          tracer := (if p_interactive_mode p
                     then (tracer st) \<lparr> tracer_num_steps := num_steps_movement st \<rparr>
                     else (tracer st) \<lparr> tracer_num_steps := num_steps st \<rparr>),
          channels := PySet (p_channels p) \<rparr>"

text \<open>The cache receives the step count and the same reference that \<^verbatim>\<open>self.channels\<close> holds.\<close>

definition post_render :: "'nef renderer \<Rightarrow> 'nef renderer" where
  "post_render st =
     st \<lparr> last_state :=
            (last_state st)(''num_steps'' \<mapsto> PyInt (tracer_num_steps (tracer st)),
                            ''channels'' \<mapsto> channels st) \<rparr>"

subsection \<open>needs_refresh\<close>

text \<open>\<^verbatim>\<open>dict.get(key, default)\<close>.\<close>

definition dict_get :: "(string \<rightharpoonup> pyval) \<Rightarrow> string \<Rightarrow> pyval \<Rightarrow> pyval" where
  "dict_get d k dflt = (case d k of None \<Rightarrow> dflt | Some v \<Rightarrow> v)"

text \<open>
  The payload is not read. \<^verbatim>\<open><\<close> between an integer and \<^verbatim>\<open>None\<close> or a set raises
  \<^verbatim>\<open>TypeError\<close>; \<^verbatim>\<open>!=\<close> never raises and compares two sets by their contents in the
  store of the moment of the call.
\<close>

definition needs_refresh :: "heap \<Rightarrow> 'nef renderer \<Rightarrow> frame_payload \<Rightarrow> error + bool" where
  "needs_refresh h st p =
     (case dict_get (last_state st) ''num_steps'' (PyInt 0) of
        PyInt k \<Rightarrow> Inr (k < num_steps st \<or>
                        \<not> py_eq h (dict_get (last_state st) ''channels'' PyNone) (channels st))
      | _ \<Rightarrow> Inl TypeError)"

subsection \<open>Ray batches\<close>

text \<open>
  Modelled from the spec: \<^verbatim>\<open>Rays.split\<close> is not part of the source file. A ray set is the
  list of its rays, and \<open>rays.split(batch_size)\<close> "partitions rays into fixed-size
  batches": consecutive runs of \<open>batch_size\<close> rays, the last one holding what is left, and
  a single batch when everything fits (also for no rays at all). A negative size, or a
  zero size for a non-empty ray set, is an error of the underlying tensor split.
\<close>

function chunks :: "nat \<Rightarrow> 'a list \<Rightarrow> 'a list list" where
  "chunks n xs =
     (if n = 0 \<or> length xs \<le> n then [xs] else take n xs # chunks n (drop n xs))"
  by pat_completeness auto
termination
  by (relation "measure (\<lambda>(n, xs). length xs)") auto

declare chunks.simps [simp del]

definition rays_split :: "int \<Rightarrow> 'ray list \<Rightarrow> error + 'ray list list" where
  "rays_split n rays =
     (if n < 0 then Inl RuntimeError
      else if n = 0 then (if rays = [] then Inr [[]] else Inl RuntimeError)
      else Inr (chunks (nat n) rays))"

subsection \<open>Tracer and render buffer\<close>

text \<open>
  The keyword arguments of one call \<^verbatim>\<open>self.tracer(self.nef, channels=..., rays=...,
  lod_idx=None, raymarch_type=..., num_steps=..., bg_color=...)\<close>.
\<close>

record 'ray tracer_call =
  tc_channels :: pyval
  tc_rays :: "'ray list"
  tc_lod_idx :: "nat option"
  tc_raymarch_type :: string
  tc_num_steps :: int
  tc_bg_color :: string

text \<open>
  The tracer is a parameter, whatever \<^verbatim>\<open>tracer_type()\<close> or \<^verbatim>\<open>PackedRFTracer()\<close> created: a
  callable that sees its own object, the neural field and the keyword arguments, and
  returns a partial render buffer or fails.
\<close>

type_synonym ('nef, 'ray, 'rb) tracer_fn =
  "tracer \<Rightarrow> 'nef \<Rightarrow> 'ray tracer_call \<Rightarrow> error + 'rb"

text \<open>
  \<^verbatim>\<open>RenderBuffer\<close> is not part of the source file either, so the four operations that
  \<^verbatim>\<open>render\<close> uses are parameters: the empty buffer \<^verbatim>\<open>RenderBuffer(hit=None)\<close>, the
  accumulation \<^verbatim>\<open>+=\<close>, \<^verbatim>\<open>reshape(h, w, -1)\<close> and \<^verbatim>\<open>scale(size=(h, w))\<close>. \<open>'rb\<close> is a buffer as
  the tracer returns it, \<open>'img\<close> a reshaped one.
\<close>

record ('rb, 'img) buffer_ops =
  rb_empty :: 'rb
  rb_add :: "'rb \<Rightarrow> 'rb \<Rightarrow> 'rb"
  rb_reshape :: "int \<Rightarrow> int \<Rightarrow> 'rb \<Rightarrow> error + 'img"
  rb_scale :: "int \<Rightarrow> int \<Rightarrow> 'img \<Rightarrow> error + 'img"

definition call_for :: "'nef renderer \<Rightarrow> 'ray list \<Rightarrow> 'ray tracer_call" where
  "call_for st ray_batch =
     \<lparr> tc_channels = channels st,
       tc_rays = ray_batch,
       tc_lod_idx = None,
       tc_raymarch_type = raymarch_type st,
       tc_num_steps = num_steps st,
       tc_bg_color = bg_color st \<rparr>"

text \<open>The calls that a loop over the given batches makes when no call fails, in order.\<close>

definition tracer_calls :: "'nef renderer \<Rightarrow> 'ray list list \<Rightarrow> 'ray tracer_call list" where
  "tracer_calls st batches = map (call_for st) batches"

text \<open>
  The loop \<^verbatim>\<open>for ray_batch in ...: rb += self.tracer(...)\<close>. The first component of the
  result is the list of the calls made to the tracer, in order; the second is the buffer
  after the last batch, or the failure of the tracer that ended the loop.
\<close>

fun render_loop ::
  "('rb, 'img) buffer_ops \<Rightarrow> ('nef, 'ray, 'rb) tracer_fn \<Rightarrow> 'nef renderer \<Rightarrow> 'rb
     \<Rightarrow> 'ray list list \<Rightarrow> 'ray tracer_call list \<times> (error + 'rb)" where
  "render_loop B T st rb [] = ([], Inr rb)"
| "render_loop B T st rb (ray_batch # rest) =
     (case T (tracer st) (nef st) (call_for st ray_batch) of
        Inl e \<Rightarrow> ([call_for st ray_batch], Inl e)
      | Inr part \<Rightarrow>
          (call_for st ray_batch # fst (render_loop B T st (rb_add B rb part) rest),
           snd (render_loop B T st (rb_add B rb part) rest)))"

text \<open>The batches of one render call; \<^verbatim>\<open>rays\<close> defaults to \<^verbatim>\<open>None\<close>, which has no \<^verbatim>\<open>split\<close>.\<close>

definition render_batches :: "'nef renderer \<Rightarrow> 'ray list option \<Rightarrow> error + 'ray list list" where
  "render_batches st rays =
     (case rays of
        None \<Rightarrow> Inl AttributeError
      | Some rs \<Rightarrow> rays_split (batch_size st) rs)"

text \<open>Lines 96 to 101 of \<^verbatim>\<open>render\<close>: the tracer calls made and the buffer before the reshape.\<close>

definition render_trace ::
  "('rb, 'img) buffer_ops \<Rightarrow> ('nef, 'ray, 'rb) tracer_fn \<Rightarrow> 'nef renderer \<Rightarrow> 'ray list option
     \<Rightarrow> 'ray tracer_call list \<times> (error + 'rb)" where
  "render_trace B T st rays =
     (case render_batches st rays of
        Inl e \<Rightarrow> ([], Inl e)
      | Inr batches \<Rightarrow> render_loop B T st (rb_empty B) batches)"

definition render_calls ::
  "('rb, 'img) buffer_ops \<Rightarrow> ('nef, 'ray, 'rb) tracer_fn \<Rightarrow> 'nef renderer \<Rightarrow> 'ray list option
     \<Rightarrow> 'ray tracer_call list" where
  "render_calls B T st rays = fst (render_trace B T st rays)"

definition render_accumulate ::
  "('rb, 'img) buffer_ops \<Rightarrow> ('nef, 'ray, 'rb) tracer_fn \<Rightarrow> 'nef renderer \<Rightarrow> 'ray list option
     \<Rightarrow> error + 'rb" where
  "render_accumulate B T st rays = snd (render_trace B T st rays)"

subsection \<open>render\<close>

text \<open>
  Lines 104 to 107. \<^verbatim>\<open>reshape\<close> and \<^verbatim>\<open>scale\<close> fail on a size that is \<^verbatim>\<open>None\<close>, which is the
  case before the first \<^verbatim>\<open>pre_render\<close>.
\<close>

definition render ::
  "('rb, 'img) buffer_ops \<Rightarrow> ('nef, 'ray, 'rb) tracer_fn \<Rightarrow> 'nef renderer \<Rightarrow> 'ray list option
     \<Rightarrow> error + 'img" where
  "render B T st rays =
     (case render_accumulate B T st rays of
        Inl e \<Rightarrow> Inl e
      | Inr rb \<Rightarrow>
          (case (render_res_y st, render_res_x st) of
             (Some h, Some w) \<Rightarrow>
               (case rb_reshape B h w rb of
                  Inl e \<Rightarrow> Inl e
                | Inr img \<Rightarrow>
                    if render_res_x st \<noteq> output_width st \<or> render_res_y st \<noteq> output_height st
                    then (case (output_height st, output_width st) of
                            (Some oh, Some ow) \<Rightarrow> rb_scale B oh ow img
                          | _ \<Rightarrow> Inl TypeError)
                    else Inr img)
           | _ \<Rightarrow> Inl TypeError))"

text \<open>
  Rendering all rays in a single batch, in the words of the spec: the empty buffer plus
  the tracer's result for the whole ray set.
\<close>

definition render_single_batch ::
  "('rb, 'img) buffer_ops \<Rightarrow> ('nef, 'ray, 'rb) tracer_fn \<Rightarrow> 'nef renderer \<Rightarrow> 'ray list
     \<Rightarrow> error + 'rb" where
  "render_single_batch B T st rays = snd (render_loop B T st (rb_empty B) [rays])"

subsection \<open>A render buffer of per-pixel outputs\<close>

text \<open>
  Modelled from the spec: \<^verbatim>\<open>RenderBuffer\<close> is not part of the source file. Before the
  reshape it is the "accumulator of per-pixel outputs", the list of the outputs of the
  rays traced so far: \<^verbatim>\<open>RenderBuffer(hit=None)\<close> is the empty list and \<^verbatim>\<open>+=\<close> appends the
  partial buffer of a batch. \<open>rb.reshape(h, w, -1)\<close> "reshapes to the internal render
  resolution": it cuts the outputs into \<open>h\<close> rows of \<open>w\<close> pixels and fails when their
  number is not \<open>h * w\<close>. \<open>rb.scale(size=(h, w))\<close> "rescales to the output resolution": it
  builds \<open>h\<close> rows of \<open>w\<close> pixels, and the interpolation \<open>resample\<close> (a parameter) gives
  the pixel of every row and column from the image to be scaled. An image is the list of
  its rows, so its height and width are the numbers of rows and of pixels in a row.
\<close>

definition has_shape :: "int \<Rightarrow> int \<Rightarrow> 'px list list \<Rightarrow> bool" where
  "has_shape h w img = (int (length img) = h \<and> list_all (\<lambda>row. int (length row) = w) img)"

definition list_reshape :: "int \<Rightarrow> int \<Rightarrow> 'px list \<Rightarrow> error + 'px list list" where
  "list_reshape h w rb =
     (if 0 < h \<and> 0 < w \<and> h * w = int (length rb)
      then Inr (chunks (nat w) rb)
      else Inl RuntimeError)"

definition list_scale ::
  "('px list list \<Rightarrow> nat \<Rightarrow> nat \<Rightarrow> nat \<Rightarrow> nat \<Rightarrow> 'px) \<Rightarrow> int \<Rightarrow> int \<Rightarrow> 'px list list
     \<Rightarrow> error + 'px list list" where
  "list_scale resample h w img =
     (if 0 < h \<and> 0 < w
      then Inr (map (\<lambda>i. map (\<lambda>j. resample img (nat h) (nat w) i j) [0..<nat w]) [0..<nat h])
      else Inl RuntimeError)"

definition list_buffer ::
  "('px list list \<Rightarrow> nat \<Rightarrow> nat \<Rightarrow> nat \<Rightarrow> nat \<Rightarrow> 'px) \<Rightarrow> ('px list, 'px list list) buffer_ops" where
  "list_buffer resample =
     \<lparr> rb_empty = [], rb_add = (@), rb_reshape = list_reshape,
       rb_scale = list_scale resample \<rparr>"

subsection \<open>A tracer that works ray by ray\<close>

text \<open>
  One kind of tracer: it never fails and returns one output per ray, in the order of the
  rays, each computed by \<open>shade\<close> from the ray and the other arguments of the call.
\<close>

definition per_ray_tracer ::
  "(tracer \<Rightarrow> 'nef \<Rightarrow> 'ray tracer_call \<Rightarrow> 'ray \<Rightarrow> 'px) \<Rightarrow> ('nef, 'ray, 'px list) tracer_fn" where
  "per_ray_tracer shade t n c = Inr (map (shade t n (c \<lparr> tc_rays := [] \<rparr>)) (tc_rays c))"

subsection \<open>Lifecycle\<close>

text \<open>
  The states a renderer object goes through: \<^verbatim>\<open>__init__\<close>, then \<^verbatim>\<open>pre_render\<close> and
  \<^verbatim>\<open>post_render\<close> in any order (\<^verbatim>\<open>needs_refresh\<close> and \<^verbatim>\<open>render\<close> assign no attribute).
\<close>

datatype event = PreRender frame_payload | PostRender

fun apply_event :: "'nef renderer \<Rightarrow> event \<Rightarrow> 'nef renderer" where
  "apply_event st (PreRender p) = pre_render st p"
| "apply_event st PostRender = post_render st"

definition lifecycle :: "'nef \<Rightarrow> tracer \<Rightarrow> init_args \<Rightarrow> event list \<Rightarrow> 'nef renderer" where
  "lifecycle n default_tracer a evs = foldl apply_event (renderer_init n default_tracer a) evs"

text \<open>
  What the last-state cache says about the previous frame: the committed step count,
  \<open>0\<close> when nothing was committed, and the committed channels.
\<close>

definition committed_steps :: "'nef renderer \<Rightarrow> int" where
  "committed_steps st =
     (case last_state st ''num_steps'' of Some (PyInt k) \<Rightarrow> k | _ \<Rightarrow> 0)"

definition committed_channels :: "'nef renderer \<Rightarrow> pyval" where
  "committed_channels st =
     (case last_state st ''channels'' of Some v \<Rightarrow> v | None \<Rightarrow> PyNone)"

subsection \<open>Concrete frames\<close>

text \<open>
  A renderer built with the default step count and batches of three rays, and frames
  that ask for a 2 x 2 render scaled to 4 x 3, while the camera moves or at rest; the
  channel set of a frame is the object at the given reference. In the store, object 0
  holds the channel \<^verbatim>\<open>rgb\<close> and every other object the channel \<^verbatim>\<open>depth\<close>.
\<close>

definition demo_args :: init_args where
  "demo_args =
     \<lparr> ia_tracer_type = None, ia_batch_size = Some 3, ia_num_steps = None,
       ia_raymarch_type = None \<rparr>"

definition demo_renderer :: "unit renderer" where
  "demo_renderer = renderer_init () \<lparr> tracer_num_steps = 64 \<rparr> demo_args"

definition demo_payload :: "bool \<Rightarrow> addr \<Rightarrow> frame_payload" where
  "demo_payload moving r =
     \<lparr> p_render_res_x = 2, p_render_res_y = 2,
       p_camera = \<lparr> cam_width = 4, cam_height = 3, cam_far = 10 \<rparr>,
       p_clear_color = (0, 0, 0), p_interactive_mode = moving,
       p_channels = r \<rparr>"

definition demo_heap :: heap where
  "demo_heap r = (if r = 0 then {''rgb''} else {''depth''})"

text \<open>
  A tracer that returns the ray itself as its output and a resampling that fills with
  zeros; a buffer that is a single number, accumulated by addition, and a tracer that
  returns the square of the number of rays of its batch.
\<close>

definition demo_tracer :: "(unit, nat, nat list) tracer_fn" where
  "demo_tracer = per_ray_tracer (\<lambda>t n c r. r)"

definition squaring_tracer :: "(unit, nat, nat) tracer_fn" where
  "squaring_tracer t n c = Inr (length (tc_rays c) * length (tc_rays c))"

definition demo_resample :: "nat list list \<Rightarrow> nat \<Rightarrow> nat \<Rightarrow> nat \<Rightarrow> nat \<Rightarrow> nat" where
  "demo_resample img h w i j = 0"

definition sum_buffer :: "(nat, nat) buffer_ops" where
  "sum_buffer =
     \<lparr> rb_empty = 0, rb_add = (+), rb_reshape = (\<lambda>h w rb. Inr rb),
       rb_scale = (\<lambda>h w img. Inr img) \<rparr>"

section \<open>Construction and step counts\<close>

lemma lifecycle_snoc:
  "lifecycle n d a (evs @ [e]) = apply_event (lifecycle n d a evs) e"
  by (simp add: lifecycle_def)

text \<open>No lifecycle method assigns \<^verbatim>\<open>num_steps\<close> or \<^verbatim>\<open>num_steps_movement\<close> after construction.\<close>

lemma lifecycle_num_steps:
  "num_steps (lifecycle n d a evs) = (case ia_num_steps a of None \<Rightarrow> 2 | Some k \<Rightarrow> k)"
proof (induction evs rule: rev_induct)
  case Nil
  show ?case by (simp add: lifecycle_def renderer_init_def Let_def)
next
  case (snoc e evs)
  then show ?case
    by (cases e) (simp_all add: lifecycle_snoc pre_render_def post_render_def)
qed

lemma lifecycle_num_steps_movement:
  "num_steps_movement (lifecycle n d a evs) =
     max ((case ia_num_steps a of None \<Rightarrow> 2 | Some k \<Rightarrow> k) div 4) 1"
proof (induction evs rule: rev_induct)
  case Nil
  show ?case by (simp add: lifecycle_def renderer_init_def Let_def)
next
  case (snoc e evs)
  then show ?case
    by (cases e) (simp_all add: lifecycle_snoc pre_render_def post_render_def)
qed

text \<open>The movement count is the lower one from two steps on, and only then.\<close>

lemma movement_lower: "(max (k div 4) 1 < k) = (2 \<le> (k :: int))"
  by (cases "k \<le> 0") auto

lemma lifecycle_movement_lower:
  "(num_steps_movement (lifecycle n d a evs) < num_steps (lifecycle n d a evs)) =
     (2 \<le> num_steps (lifecycle n d a evs))"
  by (simp only: lifecycle_num_steps lifecycle_num_steps_movement movement_lower)

text \<open>
  The constructor reads no resolution argument of its own: the four resolution
  attributes are unset until the first \<^verbatim>\<open>pre_render\<close>.
\<close>

lemma renderer_init_resolutions_unset:
  "render_res_x (renderer_init n d a) = None \<and> render_res_y (renderer_init n d a) = None \<and>
   output_width (renderer_init n d a) = None \<and> output_height (renderer_init n d a) = None"
  by (simp add: renderer_init_def Let_def)

text \<open>
  C5, as amended. Construction selects the tracer instance (the one \<^verbatim>\<open>tracer_type()\<close>
  creates, or the default one) and leaves it as it is, and fixes \<^verbatim>\<open>num_steps\<close> (2 when
  none was passed) and the movement count \<open>max (num_steps // 4) 1\<close>. The choice by mode is
  made by every \<^verbatim>\<open>pre_render\<close> that follows: a frame in interactive mode gives the tracer
  the movement count, a frame in static mode gives it \<^verbatim>\<open>num_steps\<close>. The movement count
  is the lower of the two exactly when \<^verbatim>\<open>num_steps\<close> is at least 2.
\<close>

theorem tracer_steps_by_mode:
  "tracer (renderer_init n d a) = (case ia_tracer_type a of Some t \<Rightarrow> t | None \<Rightarrow> d) \<and>
   num_steps (renderer_init n d a) = (case ia_num_steps a of None \<Rightarrow> 2 | Some k \<Rightarrow> k) \<and>
   num_steps_movement (renderer_init n d a) = max (num_steps (renderer_init n d a) div 4) 1 \<and>
   tracer_num_steps (tracer (pre_render (lifecycle n d a evs) p)) =
     (if p_interactive_mode p
      then max (num_steps (renderer_init n d a) div 4) 1
      else num_steps (renderer_init n d a)) \<and>
   (num_steps_movement (renderer_init n d a) < num_steps (renderer_init n d a)) =
     (2 \<le> num_steps (renderer_init n d a))"
proof -
  have steps: "num_steps (renderer_init n d a) = (case ia_num_steps a of None \<Rightarrow> 2 | Some k \<Rightarrow> k)"
    by (simp add: renderer_init_def Let_def)
  have mv: "num_steps_movement (renderer_init n d a) =
              max (num_steps (renderer_init n d a) div 4) 1"
    by (simp add: renderer_init_def Let_def)
  have tr: "tracer (renderer_init n d a) = (case ia_tracer_type a of Some t \<Rightarrow> t | None \<Rightarrow> d)"
    by (simp add: renderer_init_def Let_def)
  have pre: "tracer_num_steps (tracer (pre_render (lifecycle n d a evs) p)) =
     (if p_interactive_mode p
      then max (num_steps (renderer_init n d a) div 4) 1
      else num_steps (renderer_init n d a))"
    by (simp add: pre_render_def lifecycle_num_steps lifecycle_num_steps_movement steps)
  have low: "(num_steps_movement (renderer_init n d a) < num_steps (renderer_init n d a)) =
               (2 \<le> num_steps (renderer_init n d a))"
    by (simp only: mv movement_lower)
  from tr steps mv pre low show ?thesis by blast
qed

text \<open>
  C5 as first stated fails: construction has no mode to choose by. The tracer built by
  default keeps its own 64 steps, which is neither the configured count 2 nor the
  movement count 1, until a \<^verbatim>\<open>pre_render\<close> sets it.
\<close>

theorem tracer_steps_by_mode_counterexample:
  "tracer_num_steps (tracer demo_renderer) = 64 \<and>
   num_steps demo_renderer = 2 \<and>
   num_steps_movement demo_renderer = 1"
  by (simp add: demo_renderer_def demo_args_def renderer_init_def)

section \<open>The last-state cache\<close>

text \<open>
  C6. \<^verbatim>\<open>post_render\<close> stores the tracer's current step count under \<^verbatim>\<open>'num_steps'\<close> and the
  current channels under \<^verbatim>\<open>'channels'\<close>, leaves every other key of the cache as it was,
  and changes no other attribute of the renderer.
\<close>

theorem post_render_frame:
  "(\<forall>k. last_state (post_render st) k =
        (if k = ''channels'' then Some (channels st)
         else if k = ''num_steps'' then Some (PyInt (tracer_num_steps (tracer st)))
         else last_state st k)) \<and>
   post_render st = st \<lparr> last_state := last_state (post_render st) \<rparr> \<and>
   batch_size (post_render st) = batch_size st \<and>
   render_res_x (post_render st) = render_res_x st \<and>
   render_res_y (post_render st) = render_res_y st \<and>
   output_width (post_render st) = output_width st \<and>
   output_height (post_render st) = output_height st \<and>
   bg_color (post_render st) = bg_color st \<and>
   tracer (post_render st) = tracer st \<and>
   raymarch_type (post_render st) = raymarch_type st \<and>
   num_steps (post_render st) = num_steps st \<and>
   channels (post_render st) = channels st"
  by (simp add: post_render_def)

section \<open>needs_refresh\<close>

text \<open>The entry under \<^verbatim>\<open>'num_steps'\<close> is always an integer, so the comparison never raises.\<close>

lemma lifecycle_cache_steps:
  "last_state (lifecycle n d a evs) ''num_steps'' = None \<or>
   (\<exists>k. last_state (lifecycle n d a evs) ''num_steps'' = Some (PyInt k))"
proof (induction evs rule: rev_induct)
  case Nil
  show ?case by (simp add: lifecycle_def renderer_init_def Let_def)
next
  case (snoc e evs)
  then show ?case
    by (cases e) (simp_all add: lifecycle_snoc pre_render_def post_render_def)
qed

lemma needs_refresh_typed:
  assumes "last_state st ''num_steps'' = None \<or>
           (\<exists>k. last_state st ''num_steps'' = Some (PyInt k))"
  shows "needs_refresh h st p =
           Inr (committed_steps st < num_steps st \<or>
                \<not> py_eq h (committed_channels st) (channels st))"
  using assms
  by (auto simp: needs_refresh_def dict_get_def committed_steps_def committed_channels_def
           split: option.splits)

text \<open>The payload argument has no influence on the answer.\<close>

lemma needs_refresh_ignores_payload: "needs_refresh h st p = needs_refresh h st q"
  by (simp add: needs_refresh_def)

lemma py_eq_same: "py_eq h v v"
  by (cases v) simp_all

text \<open>
  C2. In every state a renderer can be in, \<^verbatim>\<open>needs_refresh\<close> returns true exactly when the
  step count committed by the previous frame (0 when no frame was committed) is lower
  than \<^verbatim>\<open>num_steps\<close>, or the channels recorded in the cache differ from the currently
  requested channels.
\<close>

theorem needs_refresh_iff:
  "needs_refresh h (lifecycle n d a evs) p =
     Inr (committed_steps (lifecycle n d a evs) < num_steps (lifecycle n d a evs) \<or>
          \<not> py_eq h (committed_channels (lifecycle n d a evs))
                     (channels (lifecycle n d a evs)))"
  by (rule needs_refresh_typed) (rule lifecycle_cache_steps)

text \<open>
  C3, as amended. After \<^verbatim>\<open>pre_render(payload)\<close> and \<^verbatim>\<open>post_render()\<close>, \<^verbatim>\<open>needs_refresh\<close> with
  the same payload returns true exactly when the payload is in interactive mode and
  \<^verbatim>\<open>num_steps\<close> is at least 2, so it returns false after every frame in static mode. After
  a commit, once \<^verbatim>\<open>pre_render\<close> has taken a payload whose channel set compares unequal to
  the committed one at the moment of the call, \<^verbatim>\<open>needs_refresh\<close> returns true before the
  next \<^verbatim>\<open>post_render\<close>.
\<close>

theorem needs_refresh_after_commit:
  "needs_refresh h (post_render (pre_render (lifecycle n d a evs) p)) p =
     Inr (p_interactive_mode p \<and> 2 \<le> num_steps (lifecycle n d a evs)) \<and>
   (\<not> py_eq h (channels (lifecycle n d a evs)) (PySet (p_channels q)) \<longrightarrow>
      needs_refresh h (pre_render (post_render (lifecycle n d a evs)) q) q = Inr True)"
proof -
  have "needs_refresh h (post_render (pre_render (lifecycle n d a evs) p)) p =
          Inr (p_interactive_mode p \<and>
               num_steps_movement (lifecycle n d a evs) < num_steps (lifecycle n d a evs))"
    by (simp add: needs_refresh_def dict_get_def pre_render_def post_render_def)
  then show ?thesis
    by (simp add: lifecycle_movement_lower)
       (simp add: needs_refresh_def dict_get_def pre_render_def post_render_def)
qed

theorem needs_refresh_after_commit_witness:
  "channels (lifecycle () \<lparr> tracer_num_steps = 64 \<rparr> demo_args
       [PreRender (demo_payload False 0)]) = PySet 0 \<and>
   demo_heap 0 = {''rgb''} \<and> demo_heap 1 = {''depth''} \<and>
   \<not> py_eq demo_heap
       (channels (lifecycle () \<lparr> tracer_num_steps = 64 \<rparr> demo_args
          [PreRender (demo_payload False 0)]))
       (PySet (p_channels (demo_payload False 1))) \<and>
   needs_refresh demo_heap
     (pre_render (post_render (lifecycle () \<lparr> tracer_num_steps = 64 \<rparr> demo_args
                                 [PreRender (demo_payload False 0)]))
        (demo_payload False 1))
     (demo_payload False 1) = Inr True \<and>
   needs_refresh demo_heap
     (post_render (pre_render (lifecycle () \<lparr> tracer_num_steps = 64 \<rparr> demo_args
                                 [PreRender (demo_payload False 0)])
        (demo_payload False 1)))
     (demo_payload False 1) = Inr False"
  using needs_refresh_after_commit
    [of demo_heap "()" "\<lparr> tracer_num_steps = 64 \<rparr>" demo_args
        "[PreRender (demo_payload False 0)]" "demo_payload False 1" "demo_payload False 1"]
  by (simp add: lifecycle_def pre_render_def demo_payload_def demo_heap_def
        demo_args_def renderer_init_def)

text \<open>
  C3 as first stated fails for a frame in interactive mode: with the default step count
  2 the tracer runs 1 step while the camera moves, 1 is committed, and the renderer asks
  for a refresh although the channels are unchanged.
\<close>

theorem needs_refresh_after_commit_counterexample:
  "needs_refresh demo_heap (post_render (pre_render demo_renderer (demo_payload True 0)))
     (demo_payload True 0) = Inr True"
  by (simp add: needs_refresh_def dict_get_def pre_render_def post_render_def
        demo_renderer_def demo_args_def demo_payload_def renderer_init_def)

text \<open>
  A channel set changed in place is not seen: the cache holds a reference to the very set
  that \<^verbatim>\<open>self.channels\<close> refers to, so whatever the store holds when \<^verbatim>\<open>needs_refresh\<close> is
  called, and also after another \<^verbatim>\<open>pre_render\<close> with the same set object, the two sides
  of the comparison are equal and only the step counts decide.
\<close>

lemma in_place_change_unseen:
  assumes "p_channels q = p_channels p"
  shows "needs_refresh h (pre_render (post_render (pre_render st p)) q) q =
           Inr (p_interactive_mode p \<and> num_steps_movement st < num_steps st)"
  using assms
  by (simp add: needs_refresh_def dict_get_def pre_render_def post_render_def)

section \<open>Ray batches\<close>

lemma concat_chunks: "concat (chunks n xs) = xs"
proof (induction n xs rule: chunks.induct)
  case (1 n xs)
  show ?case
  proof (cases "n = 0 \<or> length xs \<le> n")
    case True
    then show ?thesis by (subst chunks.simps) simp
  next
    case False
    with 1 show ?thesis by (subst chunks.simps) simp
  qed
qed

lemma chunks_length: "0 < n \<Longrightarrow> b \<in> set (chunks n xs) \<Longrightarrow> length b \<le> n"
proof (induction n xs rule: chunks.induct)
  case (1 n xs)
  show ?case
  proof (cases "length xs \<le> n")
    case True
    with 1(2,3) show ?thesis by (subst (asm) chunks.simps) simp
  next
    case False
    with 1 show ?thesis by (subst (asm) (2) chunks.simps) auto
  qed
qed

lemma rays_split_concat: "rays_split n rays = Inr bs \<Longrightarrow> concat bs = rays"
  by (auto simp: rays_split_def concat_chunks split: if_splits)

lemma rays_split_length:
  "rays_split n rays = Inr bs \<Longrightarrow> b \<in> set bs \<Longrightarrow> int (length b) \<le> n"
  using chunks_length [of "nat n" b rays]
  by (auto simp: rays_split_def split: if_splits)

lemma rays_split_total: "0 < n \<Longrightarrow> \<exists>bs. rays_split n rays = Inr bs"
  by (simp add: rays_split_def)

lemma tracer_calls_rays: "map tc_rays (tracer_calls st bs) = bs"
  by (induction bs) (simp_all add: tracer_calls_def call_for_def)

text \<open>
  The calls the loop makes are the calls for the batches, one each and in order, up to
  the batch on which the tracer fails; a loop that ends with a buffer has made them all.
\<close>

lemma render_loop_calls_prefix:
  "\<exists>rest. tracer_calls st bs = fst (render_loop B T st rb bs) @ rest"
proof (induction bs arbitrary: rb)
  case Nil
  show ?case by (simp add: tracer_calls_def)
next
  case (Cons b bs)
  show ?case
  proof (cases "T (tracer st) (nef st) (call_for st b)")
    case (Inl e)
    then show ?thesis by (simp add: tracer_calls_def)
  next
    case (Inr part)
    from Cons [of "rb_add B rb part"] obtain rest
      where "tracer_calls st bs = fst (render_loop B T st (rb_add B rb part) bs) @ rest" ..
    with Inr show ?thesis by (simp add: tracer_calls_def)
  qed
qed

lemma render_loop_calls_complete:
  "snd (render_loop B T st rb bs) = Inr r \<Longrightarrow>
     fst (render_loop B T st rb bs) = tracer_calls st bs"
proof (induction bs arbitrary: rb)
  case Nil
  show ?case by (simp add: tracer_calls_def)
next
  case (Cons b bs)
  show ?case
  proof (cases "T (tracer st) (nef st) (call_for st b)")
    case (Inl e)
    with Cons.prems show ?thesis by simp
  next
    case (Inr part)
    with Cons.prems have "snd (render_loop B T st (rb_add B rb part) bs) = Inr r" by simp
    from Cons.IH [OF this] Inr show ?thesis by (simp add: tracer_calls_def)
  qed
qed

lemma render_calls_prefix:
  assumes "render_batches st rays = Inr bs"
  shows "\<exists>rest. tracer_calls st bs = render_calls B T st rays @ rest"
  using assms render_loop_calls_prefix [of st bs B T "rb_empty B"]
  by (simp add: render_calls_def render_trace_def)

lemma render_calls_complete:
  assumes "render_batches st rays = Inr bs" and "render_accumulate B T st rays = Inr rb"
  shows "render_calls B T st rays = tracer_calls st bs"
  using assms render_loop_calls_complete [of B T st "rb_empty B" bs rb]
  by (simp add: render_calls_def render_accumulate_def render_trace_def)

lemma render_calls_no_batches:
  "render_batches st rays = Inl e \<Longrightarrow> render_calls B T st rays = []"
  by (simp add: render_calls_def render_trace_def)

lemma render_batches_cases:
  obtains e where "render_batches st rays = Inl e"
  | rs bs where "rays = Some rs" and "render_batches st rays = Inr bs"
      and "rays_split (batch_size st) rs = Inr bs"
  by (cases "render_batches st rays"; cases rays) (auto simp: render_batches_def)

text \<open>
  C7. In every render call, each call to the tracer hands over at most \<^verbatim>\<open>batch_size\<close>
  rays. When the loop ends with a buffer, the ray batches of the calls made, laid end to
  end, are the ray set itself: every ray went to the tracer in exactly one batch. In
  general the batches that the split yields partition the ray set, none of them is
  larger than \<^verbatim>\<open>batch_size\<close>, and the calls made take them one by one from the first on
  (up to the batch on which the tracer fails). With a positive batch size the split
  always yields batches.
\<close>

theorem render_batches_partition:
  "(\<forall>c \<in> set (render_calls B T st rays). int (length (tc_rays c)) \<le> batch_size st) \<and>
   (render_accumulate B T st rays = Inr rb \<longrightarrow>
      rays = Some (concat (map tc_rays (render_calls B T st rays)))) \<and>
   (render_batches st rays = Inr bs \<longrightarrow>
      rays = Some (concat bs) \<and>
      (\<forall>b \<in> set bs. int (length b) \<le> batch_size st) \<and>
      (\<exists>rest. bs = map tc_rays (render_calls B T st rays) @ rest)) \<and>
   (0 < batch_size st \<longrightarrow> (\<exists>bs'. render_batches st (Some rs) = Inr bs'))"
proof (intro conjI impI ballI)
  fix c assume c: "c \<in> set (render_calls B T st rays)"
  show "int (length (tc_rays c)) \<le> batch_size st"
  proof (cases rule: render_batches_cases [of st rays])
    case (1 e)
    with c show ?thesis by (simp add: render_calls_no_batches)
  next
    case (2 rs' bs')
    from render_calls_prefix [OF 2(2), of B T] obtain rest
      where "tracer_calls st bs' = render_calls B T st rays @ rest" ..
    with c have "c \<in> set (tracer_calls st bs')" by simp
    then have "tc_rays c \<in> set bs'"
      by (auto simp: tracer_calls_def call_for_def)
    then show ?thesis by (rule rays_split_length [OF 2(3)])
  qed
next
  assume acc: "render_accumulate B T st rays = Inr rb"
  show "rays = Some (concat (map tc_rays (render_calls B T st rays)))"
  proof (cases rule: render_batches_cases [of st rays])
    case (1 e)
    with acc show ?thesis by (simp add: render_accumulate_def render_trace_def)
  next
    case (2 rs' bs')
    have "render_calls B T st rays = tracer_calls st bs'"
      by (rule render_calls_complete [OF 2(2) acc])
    then show ?thesis
      using 2(1) rays_split_concat [OF 2(3)] by (simp add: tracer_calls_rays)
  qed
next
  assume ok: "render_batches st rays = Inr bs"
  then obtain rs' where rs': "rays = Some rs'"
    and sp: "rays_split (batch_size st) rs' = Inr bs"
    by (auto simp: render_batches_def split: option.splits)
  show "rays = Some (concat bs)"
    using rs' rays_split_concat [OF sp] by simp
  from render_calls_prefix [OF ok, of B T] obtain rest
    where "tracer_calls st bs = render_calls B T st rays @ rest" ..
  then have "map tc_rays (tracer_calls st bs) = map tc_rays (render_calls B T st rays @ rest)"
    by simp
  then show "\<exists>rest. bs = map tc_rays (render_calls B T st rays) @ rest"
    by (auto simp: tracer_calls_rays)
  fix b assume "b \<in> set bs"
  then show "int (length b) \<le> batch_size st"
    by (rule rays_split_length [OF sp])
next
  assume "0 < batch_size st"
  then show "\<exists>bs'. render_batches st (Some rs) = Inr bs'"
    by (simp add: render_batches_def rays_split_total)
qed

theorem render_batches_partition_witness:
  "map tc_rays (render_calls (list_buffer demo_resample) demo_tracer
       (pre_render demo_renderer (demo_payload True 0)) (Some [1, 2, 3, 4])) =
     [[1, 2, 3], [4]] \<and>
   render_accumulate (list_buffer demo_resample) demo_tracer
       (pre_render demo_renderer (demo_payload True 0)) (Some [1, 2, 3, 4]) =
     Inr [1, 2, 3, 4] \<and>
   render_batches (pre_render demo_renderer (demo_payload True 0)) (Some [1, 2, 3, 4 :: nat]) =
     Inr [[1, 2, 3], [4]] \<and>
   batch_size (pre_render demo_renderer (demo_payload True 0)) = 3"
  using render_batches_partition
    [of "list_buffer demo_resample" demo_tracer
        "pre_render demo_renderer (demo_payload True 0)" "Some [1, 2, 3, 4 :: nat]"
        "[1, 2, 3, 4]" "[[1, 2, 3], [4]]" "[1, 2, 3, 4 :: nat]"]
  by (simp add: render_calls_def render_accumulate_def render_trace_def render_batches_def
        rays_split_def chunks.simps call_for_def demo_tracer_def per_ray_tracer_def
        list_buffer_def pre_render_def demo_renderer_def demo_args_def renderer_init_def)

section \<open>Batched and unbatched rendering\<close>

text \<open>
  When the accumulation is associative and the tracer's result for two runs of rays put
  together is the accumulation of its results for the two runs, the loop over the chunks
  of a ray set adds the tracer's result for the whole ray set to the buffer.
\<close>

lemma render_loop_additive:
  assumes assoc: "\<forall>x y z. rb_add B (rb_add B x y) z = rb_add B x (rb_add B y z)"
    and additive: "\<forall>xs ys. \<exists>x y.
        T (tracer st) (nef st) (call_for st xs) = Inr x \<and>
        T (tracer st) (nef st) (call_for st ys) = Inr y \<and>
        T (tracer st) (nef st) (call_for st (xs @ ys)) = Inr (rb_add B x y)"
    and whole: "T (tracer st) (nef st) (call_for st xs) = Inr x"
  shows "snd (render_loop B T st rb (chunks n xs)) = Inr (rb_add B rb x)"
  using whole
proof (induction n xs arbitrary: rb x rule: chunks.induct)
  case (1 n xs)
  show ?case
  proof (cases "n = 0 \<or> length xs \<le> n")
    case True
    then have "chunks n xs = [xs]" by (subst chunks.simps) simp
    with "1.prems" show ?thesis by simp
  next
    case False
    then have ch: "chunks n xs = take n xs # chunks n (drop n xs)"
      by (subst chunks.simps) simp
    from additive obtain y z where
      y: "T (tracer st) (nef st) (call_for st (take n xs)) = Inr y" and
      z: "T (tracer st) (nef st) (call_for st (drop n xs)) = Inr z" and
      yz: "T (tracer st) (nef st) (call_for st (take n xs @ drop n xs)) = Inr (rb_add B y z)"
      by blast
    from yz "1.prems" have x: "x = rb_add B y z" by simp
    have "snd (render_loop B T st (rb_add B rb y) (chunks n (drop n xs))) =
            Inr (rb_add B (rb_add B rb y) z)"
      by (rule "1.IH" [OF False z])
    with y show ?thesis by (simp add: ch x assoc)
  qed
qed

text \<open>
  C4, as amended. For every ray set and every positive batch size, when the accumulation
  of render buffers is associative and the tracer returns, for two runs of rays put
  together, the accumulation of what it returns for each run (as a tracer does that
  computes the output of every ray from that ray alone), the buffer accumulated over the
  batches is the buffer of a single batch with all rays. Commutativity is not needed.
\<close>

theorem batched_equals_single_batch:
  assumes "0 < batch_size st"
    and "\<forall>x y z. rb_add B (rb_add B x y) z = rb_add B x (rb_add B y z)"
    and "\<forall>xs ys. \<exists>x y.
        T (tracer st) (nef st) (call_for st xs) = Inr x \<and>
        T (tracer st) (nef st) (call_for st ys) = Inr y \<and>
        T (tracer st) (nef st) (call_for st (xs @ ys)) = Inr (rb_add B x y)"
  shows "render_accumulate B T st (Some rays) = render_single_batch B T st rays \<and>
         (\<exists>x. T (tracer st) (nef st) (call_for st rays) = Inr x \<and>
              render_single_batch B T st rays = Inr (rb_add B (rb_empty B) x))"
proof -
  from assms(3) obtain x where x: "T (tracer st) (nef st) (call_for st rays) = Inr x"
    by blast
  have single: "render_single_batch B T st rays = Inr (rb_add B (rb_empty B) x)"
    by (simp add: render_single_batch_def x)
  have "render_accumulate B T st (Some rays) =
          snd (render_loop B T st (rb_empty B) (chunks (nat (batch_size st)) rays))"
    using assms(1)
    by (simp add: render_accumulate_def render_trace_def render_batches_def rays_split_def)
  also have "\<dots> = Inr (rb_add B (rb_empty B) x)"
    using assms(2) assms(3) x by (rule render_loop_additive)
  finally show ?thesis using single x by simp
qed

lemma per_ray_tracer_additive:
  "\<exists>x y. per_ray_tracer shade t n (call_for st xs) = Inr x \<and>
         per_ray_tracer shade t n (call_for st ys) = Inr y \<and>
         per_ray_tracer shade t n (call_for st (xs @ ys)) = Inr (x @ y)"
  by (simp add: per_ray_tracer_def call_for_def)

theorem batched_equals_single_batch_witness:
  "0 < batch_size (pre_render demo_renderer (demo_payload True 0)) \<and>
   (\<forall>x y z. rb_add (list_buffer demo_resample) (rb_add (list_buffer demo_resample) x y) z =
            rb_add (list_buffer demo_resample) x (rb_add (list_buffer demo_resample) y z)) \<and>
   (\<forall>xs ys. \<exists>x y.
      demo_tracer (tracer (pre_render demo_renderer (demo_payload True 0)))
        (nef (pre_render demo_renderer (demo_payload True 0)))
        (call_for (pre_render demo_renderer (demo_payload True 0)) xs) = Inr x \<and>
      demo_tracer (tracer (pre_render demo_renderer (demo_payload True 0)))
        (nef (pre_render demo_renderer (demo_payload True 0)))
        (call_for (pre_render demo_renderer (demo_payload True 0)) ys) = Inr y \<and>
      demo_tracer (tracer (pre_render demo_renderer (demo_payload True 0)))
        (nef (pre_render demo_renderer (demo_payload True 0)))
        (call_for (pre_render demo_renderer (demo_payload True 0)) (xs @ ys)) =
        Inr (rb_add (list_buffer demo_resample) x y)) \<and>
   render_accumulate (list_buffer demo_resample) demo_tracer
     (pre_render demo_renderer (demo_payload True 0)) (Some [1, 2, 3, 4]) = Inr [1, 2, 3, 4] \<and>
   render_single_batch (list_buffer demo_resample) demo_tracer
     (pre_render demo_renderer (demo_payload True 0)) [1, 2, 3, 4] = Inr [1, 2, 3, 4]"
proof -
  let ?st = "pre_render demo_renderer (demo_payload True 0)"
  let ?B = "list_buffer demo_resample"
  have pos: "0 < batch_size ?st"
    by (simp add: pre_render_def demo_renderer_def demo_args_def renderer_init_def)
  have assoc: "\<forall>x y z. rb_add ?B (rb_add ?B x y) z = rb_add ?B x (rb_add ?B y z)"
    by (simp add: list_buffer_def)
  have additive: "\<forall>xs ys. \<exists>x y.
      demo_tracer (tracer ?st) (nef ?st) (call_for ?st xs) = Inr x \<and>
      demo_tracer (tracer ?st) (nef ?st) (call_for ?st ys) = Inr y \<and>
      demo_tracer (tracer ?st) (nef ?st) (call_for ?st (xs @ ys)) = Inr (rb_add ?B x y)"
    by (simp add: demo_tracer_def per_ray_tracer_def call_for_def list_buffer_def)
  have single: "render_single_batch ?B demo_tracer ?st [1, 2, 3, 4] = Inr [1, 2, 3, 4]"
    by (simp add: render_single_batch_def demo_tracer_def per_ray_tracer_def call_for_def
          list_buffer_def)
  from batched_equals_single_batch
         [where st = "?st" and B = "?B" and T = demo_tracer and rays = "[1, 2, 3, 4]",
          OF pos assoc additive] single
  have "render_accumulate ?B demo_tracer ?st (Some [1, 2, 3, 4]) = Inr [1, 2, 3, 4]"
    by simp
  with pos assoc additive single show ?thesis by blast
qed

text \<open>
  C4 as first stated fails: an associative and commutative accumulation is not enough
  when the tracer's result depends on its batch as a whole. With numbers added up and a
  tracer that returns the square of the number of rays it is given, four rays in batches
  of three accumulate 9 + 1, and in a single batch 16.
\<close>

theorem batched_equals_single_batch_counterexample:
  "(\<forall>x y z. rb_add sum_buffer (rb_add sum_buffer x y) z =
            rb_add sum_buffer x (rb_add sum_buffer y z)) \<and>
   (\<forall>x y. rb_add sum_buffer x y = rb_add sum_buffer y x) \<and>
   0 < batch_size (pre_render demo_renderer (demo_payload True 0)) \<and>
   render_accumulate sum_buffer squaring_tracer
     (pre_render demo_renderer (demo_payload True 0)) (Some [1, 2, 3, 4]) = Inr 10 \<and>
   render_single_batch sum_buffer squaring_tracer
     (pre_render demo_renderer (demo_payload True 0)) [1, 2, 3, 4] = Inr 16"
  by (simp add: render_accumulate_def render_single_batch_def render_trace_def
        render_batches_def rays_split_def chunks.simps call_for_def squaring_tracer_def
        sum_buffer_def pre_render_def demo_renderer_def demo_args_def renderer_init_def)

section \<open>Shape of the rendered buffer\<close>

lemma chunks_rows:
  "length xs = h * w \<Longrightarrow> 0 < h \<Longrightarrow> 0 < w \<Longrightarrow>
     length (chunks w xs) = h \<and> list_all (\<lambda>row. length row = w) (chunks w xs)"
proof (induction h arbitrary: xs)
  case 0
  then show ?case by simp
next
  case (Suc h)
  show ?case
  proof (cases "h = 0")
    case True
    with Suc.prems have "chunks w xs = [xs]" by (subst chunks.simps) simp
    with True Suc.prems show ?thesis by simp
  next
    case False
    with Suc.prems have long: "\<not> (w = 0 \<or> length xs \<le> w)" by simp
    then have ch: "chunks w xs = take w xs # chunks w (drop w xs)"
      by (subst chunks.simps) simp
    from Suc.prems have "length (drop w xs) = h * w" by simp
    from Suc.IH [OF this] False Suc.prems(3)
    have "length (chunks w (drop w xs)) = h \<and>
          list_all (\<lambda>row. length row = w) (chunks w (drop w xs))" by simp
    with long show ?thesis by (simp add: ch)
  qed
qed

lemma list_reshape_rows:
  assumes "list_reshape h w rb = Inr mid"
  shows "has_shape h w mid \<and> concat mid = rb"
proof -
  from assms have pos: "0 < h" "0 < w" and len: "h * w = int (length rb)"
    and mid: "mid = chunks (nat w) rb"
    by (auto simp: list_reshape_def split: if_splits)
  from pos len have "length rb = nat h * nat w"
    by (metis nat_int nat_mult_distrib order_less_imp_le)
  from chunks_rows [OF this] pos
  have "length (chunks (nat w) rb) = nat h \<and>
        list_all (\<lambda>row. length row = nat w) (chunks (nat w) rb)" by simp
  with pos have "has_shape h w (chunks (nat w) rb)"
    by (auto simp: has_shape_def list_all_iff)
  then show ?thesis by (simp add: mid concat_chunks)
qed

lemma list_scale_rows:
  assumes "list_scale resample h w img = Inr out"
  shows "has_shape h w out"
  using assms
  by (auto simp: list_scale_def has_shape_def list_all_iff split: if_splits)

text \<open>The stages of a render call that returns, for any render buffer and tracer.\<close>

lemma render_stages:
  assumes "render B T st rays = Inr img"
  shows "\<exists>rb h w mid. render_accumulate B T st rays = Inr rb \<and>
           render_res_y st = Some h \<and> render_res_x st = Some w \<and>
           rb_reshape B h w rb = Inr mid"
  using assms by (auto simp: render_def split: sum.splits option.splits)

lemma render_unfold:
  assumes "render_accumulate B T st rays = Inr rb"
    and "render_res_y st = Some h" "render_res_x st = Some w"
    and "rb_reshape B h w rb = Inr mid"
  shows "render B T st rays =
           (if render_res_x st \<noteq> output_width st \<or> render_res_y st \<noteq> output_height st
            then (case (output_height st, output_width st) of
                    (Some oh, Some ow) \<Rightarrow> rb_scale B oh ow mid
                  | _ \<Rightarrow> Inl TypeError)
            else Inr mid)"
  by (simp add: render_def assms)

text \<open>
  C1. Whenever \<^verbatim>\<open>render\<close> returns a buffer, the loop over the batches has ended with an
  accumulated buffer, the render and output resolutions are set, the accumulated buffer
  has been reshaped to \<open>render_res_y\<close> rows of \<open>render_res_x\<close> pixels that hold its
  outputs in order, and the buffer returned is that image when the two resolutions
  agree and its rescaling to the output resolution when they differ. In both cases it has
  \<open>output_height\<close> rows of \<open>output_width\<close> pixels, whatever the render resolution, the
  batch size and the tracer.
\<close>

theorem render_output_shape:
  "render (list_buffer resample) T st rays = Inr img \<Longrightarrow>
     (\<exists>rb h w oh ow mid.
        render_accumulate (list_buffer resample) T st rays = Inr rb \<and>
        render_res_y st = Some h \<and> render_res_x st = Some w \<and>
        output_height st = Some oh \<and> output_width st = Some ow \<and>
        list_reshape h w rb = Inr mid \<and> has_shape h w mid \<and> concat mid = rb \<and>
        (if w \<noteq> ow \<or> h \<noteq> oh then list_scale resample oh ow mid = Inr img else img = mid) \<and>
        has_shape oh ow img)"
proof -
  assume r: "render (list_buffer resample) T st rays = Inr img"
  from render_stages [OF r] obtain rb h w mid where
    acc: "render_accumulate (list_buffer resample) T st rays = Inr rb" and
    res: "render_res_y st = Some h" "render_res_x st = Some w" and
    mid': "rb_reshape (list_buffer resample) h w rb = Inr mid"
    by blast
  from mid' have mid: "list_reshape h w rb = Inr mid"
    by (simp add: list_buffer_def)
  note rows = list_reshape_rows [OF mid]
  note unfold = render_unfold [OF acc res mid']
  show ?thesis
  proof (cases "render_res_x st \<noteq> output_width st \<or> render_res_y st \<noteq> output_height st")
    case True
    with unfold r have "(case (output_height st, output_width st) of
           (Some oh, Some ow) \<Rightarrow> rb_scale (list_buffer resample) oh ow mid
         | _ \<Rightarrow> Inl TypeError) = Inr img"
      by simp
    then obtain oh ow where out: "output_height st = Some oh" "output_width st = Some ow"
      and sc: "list_scale resample oh ow mid = Inr img"
      by (auto simp: list_buffer_def split: option.splits)
    from True res out have "w \<noteq> ow \<or> h \<noteq> oh" by auto
    with acc res out mid rows sc list_scale_rows [OF sc] show ?thesis by auto
  next
    case False
    with unfold r have "img = mid" by simp
    moreover from False res have "output_height st = Some h" "output_width st = Some w"
      by auto
    ultimately show ?thesis using acc res mid rows by auto
  qed
qed

theorem render_output_shape_witness:
  "render (list_buffer demo_resample) demo_tracer
     (pre_render demo_renderer (demo_payload True 0)) (Some [1, 2, 3, 4]) =
     Inr [[0, 0, 0, 0], [0, 0, 0, 0], [0, 0, 0, 0]] \<and>
   render_accumulate (list_buffer demo_resample) demo_tracer
     (pre_render demo_renderer (demo_payload True 0)) (Some [1, 2, 3, 4]) =
     Inr [1, 2, 3, 4] \<and>
   list_reshape 2 2 [1, 2, 3, 4 :: nat] = Inr [[1, 2], [3, 4]] \<and>
   render_res_y (pre_render demo_renderer (demo_payload True 0)) = Some 2 \<and>
   render_res_x (pre_render demo_renderer (demo_payload True 0)) = Some 2 \<and>
   output_height (pre_render demo_renderer (demo_payload True 0)) = Some 3 \<and>
   output_width (pre_render demo_renderer (demo_payload True 0)) = Some 4 \<and>
   has_shape 3 4 [[0, 0, 0, 0], [0, 0, 0, 0], [0, 0, 0, 0 :: nat]]"
  using render_output_shape
    [of demo_resample demo_tracer "pre_render demo_renderer (demo_payload True 0)"
        "Some [1, 2, 3, 4]" "[[0, 0, 0, 0], [0, 0, 0, 0], [0, 0, 0, 0]]"]
  by (simp add: render_def render_accumulate_def render_trace_def render_batches_def
        rays_split_def chunks.simps call_for_def demo_tracer_def per_ray_tracer_def
        list_buffer_def list_reshape_def list_scale_def demo_resample_def has_shape_def
        upt_rec pre_render_def demo_renderer_def demo_args_def demo_payload_def renderer_init_def)

text \<open>
  \<^verbatim>\<open>render\<close> does return when the loop ends with a buffer of one output per pixel of the
  render resolution and the resolutions are set and positive.
\<close>

lemma render_returns:
  assumes "render_accumulate (list_buffer resample) T st rays = Inr rb"
    and "render_res_y st = Some h" "render_res_x st = Some w"
    and "output_height st = Some oh" "output_width st = Some ow"
    and "0 < h" "0 < w" "0 < oh" "0 < ow"
    and "h * w = int (length rb)"
  shows "\<exists>img. render (list_buffer resample) T st rays = Inr img \<and> has_shape oh ow img"
proof -
  have mid: "list_reshape h w rb = Inr (chunks (nat w) rb)"
    using assms(6,7,10) by (simp add: list_reshape_def)
  then have mid': "rb_reshape (list_buffer resample) h w rb = Inr (chunks (nat w) rb)"
    by (simp add: list_buffer_def)
  note unfold = render_unfold [OF assms(1,2,3) mid']
  show ?thesis
  proof (cases "w \<noteq> ow \<or> h \<noteq> oh")
    case True
    obtain out where out: "list_scale resample oh ow (chunks (nat w) rb) = Inr out"
      using assms(8,9) by (simp add: list_scale_def)
    have sc: "rb_scale (list_buffer resample) oh ow (chunks (nat w) rb) = Inr out"
      by (simp add: list_buffer_def out)
    from True have "render (list_buffer resample) T st rays = Inr out"
      by (simp add: unfold assms(2,3,4,5) sc)
    with list_scale_rows [OF out] show ?thesis by blast
  next
    case False
    then have "render (list_buffer resample) T st rays = Inr (chunks (nat w) rb)"
      by (simp add: unfold assms(2,3,4,5))
    with list_reshape_rows [OF mid] False show ?thesis by auto
  qed
qed

section \<open>Step count used and step count committed\<close>



section \<open>Background colour\<close>

text \<open>
  C10. \<^verbatim>\<open>pre_render\<close> sets the background colour to \<^verbatim>\<open>'black'\<close> exactly when the payload's
  clear colour is the triple \<open>(0.0, 0.0, 0.0)\<close>, and to \<^verbatim>\<open>'white'\<close> for every other clear
  colour.
\<close>

theorem pre_render_bg_color:
  "(bg_color (pre_render st p) = ''black'') = (p_clear_color p = (0, 0, 0)) \<and>
   (bg_color (pre_render st p) = ''white'') = (p_clear_color p \<noteq> (0, 0, 0))"
  by (simp add: pre_render_def)


end
